theory Spec2Isabelle
  imports Main
begin

section \<open>Product catalogue: data model\<close>

text \<open>
  The Django application \<open>products\<close> stores categories and products and offers a
  filtered search and a lookup by id. The model below follows \<open>models.py\<close>,
  \<open>services.py\<close> and \<open>views.py\<close>. The relational store and the ORM are external:
  a table is a list of rows, and each ORM call is given its documented meaning on such
  lists. What the store decides by itself (the order of rows that the query does not
  order, the range of its integer keys) is a part of the store that the model takes as
  given. A category id is taken to be an integer that the backend accepts as a parameter
  of a query; what a backend does with a larger one is not modelled.
\<close>

subsection \<open>Python's \<open>decimal.Decimal\<close>\<close>

text \<open>
  A \<open>Decimal\<close> is a sign, a coefficient and an exponent (\<open>Finite s c e\<close> stands for
  \<open>(-1)^s * c * 10^e\<close>), an infinity with a sign, or a NaN. Every NaN is rejected by
  the first comparison the views make, so sign, payload and signalling flag of a NaN are
  not kept.
\<close>

datatype decimal = Finite bool nat int | Infinity bool | NaN

definition signed :: "bool \<Rightarrow> nat \<Rightarrow> int" where
  "signed s c = (if s then - int c else int c)"

text \<open>The numeric order of \<open>Decimal\<close>; a NaN is not comparable with anything.\<close>

fun dec_less :: "decimal \<Rightarrow> decimal \<Rightarrow> bool" where
  "dec_less (Finite s1 c1 e1) (Finite s2 c2 e2) =
     (let e = min e1 e2
      in signed s1 c1 * 10 ^ nat (e1 - e) < signed s2 c2 * 10 ^ nat (e2 - e))"
| "dec_less (Finite s1 c1 e1) (Infinity s2) = (\<not> s2)"
| "dec_less (Infinity s1) (Finite s2 c2 e2) = s1"
| "dec_less (Infinity s1) (Infinity s2) = (s1 \<and> \<not> s2)"
| "dec_less NaN b = False"
| "dec_less a NaN = False"

fun dec_le :: "decimal \<Rightarrow> decimal \<Rightarrow> bool" where
  "dec_le (Finite s1 c1 e1) (Finite s2 c2 e2) =
     (let e = min e1 e2
      in signed s1 c1 * 10 ^ nat (e1 - e) \<le> signed s2 c2 * 10 ^ nat (e2 - e))"
| "dec_le (Finite s1 c1 e1) (Infinity s2) = (\<not> s2)"
| "dec_le (Infinity s1) (Finite s2 c2 e2) = s1"
| "dec_le (Infinity s1) (Infinity s2) = (s1 \<or> \<not> s2)"
| "dec_le NaN b = False"
| "dec_le a NaN = False"

text \<open>\<open>Decimal.is_finite\<close>.\<close>

fun is_finite :: "decimal \<Rightarrow> bool" where
  "is_finite (Finite s c e) = True"
| "is_finite (Infinity s) = False"
| "is_finite NaN = False"

subsection \<open>Rows of the two tables (\<open>models.py\<close>)\<close>

record category =
  cat_id :: int
  cat_name :: string
  cat_description :: string
  cat_is_active :: bool
  cat_created_at :: int

text \<open>
  \<open>created_at\<close> is a point in time, kept as a number of microseconds. \<open>category_id\<close>
  is the column behind the foreign key \<open>category\<close>.
\<close>

record product =
  prod_id :: int
  sku :: string
  name :: string
  price :: decimal
  is_active :: bool
  category_id :: int
  created_at :: int
  description :: string

text \<open>
  \<open>price = models.DecimalField(max_digits=10, decimal_places=2)\<close>: the store hands
  back a finite number with two decimal places and at most ten digits.
\<close>

definition price_field :: "decimal \<Rightarrow> bool" where
  "price_field p = (case p of Finite s c e \<Rightarrow> e = - 2 \<and> c < 10 ^ 10 | _ \<Rightarrow> False)"

subsection \<open>Exceptions\<close>

text \<open>
  \<open>ValidationError v\<close> is the error with which Django refuses the value \<open>v\<close> for a
  decimal column.
\<close>

datatype exn =
  ValueError string
| InvalidOperation
| ValidationError decimal
| DoesNotExist
| MultipleObjectsReturned nat
| DatabaseError

section \<open>Querysets (\<open>ProductQuerySet\<close>, \<open>ProductManager\<close>)\<close>

text \<open>
  A queryset is lazy: it collects the conditions of \<open>filter\<close>, the relations of
  \<open>select_related\<close> and the ordering, and reaches the store only when it is evaluated.
\<close>

datatype lookup =
  Is_active bool
| Category_id int
| Price_range decimal decimal
| Id int

datatype order_term = Desc_created_at

record queryset =
  wheres :: "lookup list"
  related :: bool
  ordering :: "order_term list"

definition filter_qs :: "lookup \<Rightarrow> queryset \<Rightarrow> queryset" where
  "filter_qs l q = q\<lparr>wheres := wheres q @ [l]\<rparr>"

definition select_related :: "queryset \<Rightarrow> queryset" where
  "select_related q = q\<lparr>related := True\<rparr>"

definition order_by :: "order_term list \<Rightarrow> queryset \<Rightarrow> queryset" where
  "order_by ts q = q\<lparr>ordering := ts\<rparr>"

text \<open>\<open>ProductManager.get_queryset\<close>: all rows, in the order of \<open>Meta.ordering\<close>.\<close>

definition get_queryset :: queryset where
  "get_queryset = \<lparr>wheres = [], related = False, ordering = [Desc_created_at]\<rparr>"

definition active_products :: "queryset \<Rightarrow> queryset" where
  "active_products q = filter_qs (Is_active True) q"

definition by_category :: "int \<Rightarrow> queryset \<Rightarrow> queryset" where
  "by_category c q = filter_qs (Category_id c) q"

text \<open>
  \<open>filter(price__range=(min_price, max_price))\<close>. When the condition is built, each
  bound is prepared as a value of the price column, and Django refuses one that is not
  finite (an infinity or a NaN): the call raises and no queryset comes back.
\<close>

definition by_price_range :: "decimal \<Rightarrow> decimal \<Rightarrow> queryset \<Rightarrow> exn + queryset" where
  "by_price_range lo hi q =
     (if \<not> is_finite lo then Inl (ValidationError lo)
      else if \<not> is_finite hi then Inl (ValidationError hi)
      else Inr (filter_qs (Price_range lo hi) q))"

text \<open>
  \<open>search_products\<close>. The test \<open>if category_id:\<close> is Python's truth test: it fails for
  \<open>None\<close> and for the integer 0. The price test is \<open>is not None\<close> on both bounds.
\<close>

definition search_products ::
  "int option \<Rightarrow> decimal option \<Rightarrow> decimal option \<Rightarrow> exn + queryset" where
  "search_products cid min_price max_price =
     (let q0 = active_products get_queryset;
          q1 = (case cid of
                  None \<Rightarrow> q0
                | Some c \<Rightarrow> if c \<noteq> 0 then by_category c q0 else q0)
      in case (case (min_price, max_price) of
                 (Some lo, Some hi) \<Rightarrow> by_price_range lo hi q1
               | _ \<Rightarrow> Inr q1) of
           Inl e \<Rightarrow> Inl e
         | Inr q2 \<Rightarrow> Inr (order_by [Desc_created_at] (select_related q2)))"

section \<open>The store\<close>

text \<open>
  The two tables, and the number of queries sent so far (what Django's
  \<open>assertNumQueries\<close> counts). Two things are the store's own. \<open>plan d q p\<close> is the
  place that the store's plan for the query \<open>q\<close> gives the row \<open>p\<close> among the rows
  that the query itself does not order. \<open>key_in_range d i\<close> says that \<open>i\<close> lies in
  the range of the integer column of the primary key.
\<close>

record db =
  products :: "product list"
  categories :: "category list"
  queries :: nat
  plan :: "queryset \<Rightarrow> product \<Rightarrow> int"
  key_in_range :: "int \<Rightarrow> bool"

text \<open>
  What the store itself enforces: primary keys are unique and in the range of their
  column, and every product's foreign key names an existing category.
\<close>

definition store_ok :: "db \<Rightarrow> bool" where
  "store_ok d \<longleftrightarrow>
     distinct (map prod_id (products d)) \<and>
     distinct (map cat_id (categories d)) \<and>
     list_all (\<lambda>p. key_in_range d (prod_id p)) (products d) \<and>
     list_all (\<lambda>p. category_id p \<in> set (map cat_id (categories d))) (products d)"

subsection \<open>Evaluating a queryset\<close>

fun matches :: "product \<Rightarrow> lookup \<Rightarrow> bool" where
  "matches p (Is_active b) = (is_active p = b)"
| "matches p (Category_id c) = (category_id p = c)"
| "matches p (Price_range lo hi) = (dec_le lo (price p) \<and> dec_le (price p) hi)"
| "matches p (Id i) = (prod_id p = i)"

text \<open>
  \<open>ORDER BY created_at DESC\<close> and nothing else: rows with the same \<open>created_at\<close>
  come in the order of the store's plan for the query. (The sort is stable, so sorting
  by the plan first leaves the plan's order among equal \<open>created_at\<close>.)
\<close>

fun apply_ordering ::
  "(product \<Rightarrow> int) \<Rightarrow> order_term list \<Rightarrow> product list \<Rightarrow> product list" where
  "apply_ordering rank [] rows = sort_key rank rows"
| "apply_ordering rank (Desc_created_at # ts) rows =
     sort_key (\<lambda>p. - created_at p) (sort_key rank rows)"

definition select_rows :: "db \<Rightarrow> queryset \<Rightarrow> product list" where
  "select_rows d q =
     apply_ordering (plan d q) (ordering q)
       (filter (\<lambda>p. list_all (matches p) (wheres q)) (products d))"

text \<open>
  A model instance: the row, and the related category when it was loaded with the row.
\<close>

record product_obj =
  row :: product
  category_cache :: "category option"

text \<open>
  \<open>select_related('category')\<close> on the required foreign key is an inner join: a row
  comes with its category, and a row without one is not returned.
\<close>

definition join_category :: "category list \<Rightarrow> product \<Rightarrow> product_obj option" where
  "join_category cs p =
     map_option (\<lambda>c. \<lparr>row = p, category_cache = Some c\<rparr>)
       (find (\<lambda>c. cat_id c = category_id p) cs)"

definition run_query :: "db \<Rightarrow> queryset \<Rightarrow> product_obj list" where
  "run_query d q =
     (if related q then List.map_filter (join_category (categories d)) (select_rows d q)
      else map (\<lambda>p. \<lparr>row = p, category_cache = None\<rparr>) (select_rows d q))"

text \<open>
  A condition \<open>id = i\<close> with \<open>i\<close> outside the range of the key column can hold of
  no row; Django knows the result to be empty and sends no query for it.
\<close>

fun out_of_range :: "db \<Rightarrow> lookup \<Rightarrow> bool" where
  "out_of_range d (Id i) = (\<not> key_in_range d i)"
| "out_of_range d l = False"

text \<open>Iterating over a queryset sends one query, unless the result is known to be empty.\<close>

definition fetch_all :: "queryset \<Rightarrow> db \<Rightarrow> product_obj list \<times> db" where
  "fetch_all q d =
     (if list_ex (out_of_range d) (wheres q) then ([], d)
      else (run_query d q, d\<lparr>queries := Suc (queries d)\<rparr>))"

text \<open>
  \<open>list(Product.objects.search_products(...))\<close>, as the tests and the view run a
  search: the queryset is built, which may raise, and then evaluated.
\<close>

definition search_list ::
  "int option \<Rightarrow> decimal option \<Rightarrow> decimal option \<Rightarrow> db \<Rightarrow> (exn + product_obj list) \<times> db" where
  "search_list cid min_price max_price d =
     (case search_products cid min_price max_price of
        Inl e \<Rightarrow> (Inl e, d)
      | Inr q \<Rightarrow> (case fetch_all q d of (objs, d1) \<Rightarrow> (Inr objs, d1)))"

text \<open>
  \<open>QuerySet.get\<close>: adds the condition, evaluates the queryset and expects exactly
  one row.
\<close>

definition get_where :: "lookup \<Rightarrow> queryset \<Rightarrow> db \<Rightarrow> (exn + product_obj) \<times> db" where
  "get_where l q d =
     (case fetch_all (filter_qs l q) d of
        (objs, d1) \<Rightarrow>
          ((case objs of
              [] \<Rightarrow> Inl DoesNotExist
            | [obj] \<Rightarrow> Inr obj
            | obj # objs' \<Rightarrow> Inl (MultipleObjectsReturned (Suc (length objs')))),
           d1))"

text \<open>
  Reading \<open>product.category\<close>: the category loaded with the row if there is one,
  and one more query for it otherwise.
\<close>

definition get_category :: "product_obj \<Rightarrow> db \<Rightarrow> (exn + category) \<times> db" where
  "get_category obj d =
     (case category_cache obj of
        Some c \<Rightarrow> (Inr c, d)
      | None \<Rightarrow>
          ((case filter (\<lambda>c. cat_id c = category_id (row obj)) (categories d) of
              [] \<Rightarrow> Inl DoesNotExist
            | [c] \<Rightarrow> Inr c
            | c # cs \<Rightarrow> Inl (MultipleObjectsReturned (Suc (length cs)))),
           d\<lparr>queries := Suc (queries d)\<rparr>))"

section \<open>Service layer (\<open>ProductSearchService\<close>)\<close>

record search_filters =
  filter_category_id :: "int option"
  filter_min_price :: "decimal option"
  filter_max_price :: "decimal option"

definition service_search_products :: "search_filters \<Rightarrow> exn + queryset" where
  "service_search_products filters =
     search_products (filter_category_id filters) (filter_min_price filters)
       (filter_max_price filters)"

definition get_product_detail :: "int \<Rightarrow> db \<Rightarrow> (exn + product_obj) \<times> db" where
  "get_product_detail product_id d = get_where (Id product_id) (select_related get_queryset) d"

section \<open>Strings and numbers of the Python library\<close>

text \<open>
  A \<open>string\<close> is read as a sequence of code points below 256. In that range the decimal
  digits are \<open>0\<close> to \<open>9\<close>. The white space that \<open>Decimal\<close> skips around a
  number is that of \<open>str.isspace\<close>: 9 to 13, 28 to 32, 133 and 160. \<open>int\<close> skips
  less: 9 to 13, 32, 133 and 160, and not the separators 28 to 31. Limits of the
  interpreter on the number of digits and on the size of an exponent are left out.
\<close>

definition is_digit :: "char \<Rightarrow> bool" where
  "is_digit c \<longleftrightarrow> 48 \<le> (of_char c :: nat) \<and> (of_char c :: nat) \<le> 57"

definition digit_val :: "char \<Rightarrow> nat" where
  "digit_val c = of_char c - 48"

definition digit_char :: "nat \<Rightarrow> char" where
  "digit_char n = ''0123456789'' ! n"

definition is_space :: "char \<Rightarrow> bool" where
  "is_space c \<longleftrightarrow>
     (let n = (of_char c :: nat)
      in (9 \<le> n \<and> n \<le> 13) \<or> (28 \<le> n \<and> n \<le> 32) \<or> n = 133 \<or> n = 160)"

definition is_space_int :: "char \<Rightarrow> bool" where
  "is_space_int c \<longleftrightarrow>
     (let n = (of_char c :: nat)
      in (9 \<le> n \<and> n \<le> 13) \<or> n = 32 \<or> n = 133 \<or> n = 160)"

definition strip :: "string \<Rightarrow> string" where
  "strip s = rev (dropWhile is_space (rev (dropWhile is_space s)))"

definition strip_int :: "string \<Rightarrow> string" where
  "strip_int s = rev (dropWhile is_space_int (rev (dropWhile is_space_int s)))"

definition digits_val :: "string \<Rightarrow> nat" where
  "digits_val ds = foldl (\<lambda>a c. 10 * a + digit_val c) 0 ds"

text \<open>\<open>str\<close> of a natural number.\<close>

fun str_nat :: "nat \<Rightarrow> string" where
  "str_nat n = (if n < 10 then [digit_char n] else str_nat (n div 10) @ [digit_char (n mod 10)])"

text \<open>
  \<open>int(s)\<close> in base 10: white space around, a sign, then digits, where one underscore
  may stand between two digits. \<open>None\<close> is the \<open>ValueError\<close>.
\<close>

fun grouped_digits :: "string \<Rightarrow> string option" where
  "grouped_digits [] = None"
| "grouped_digits [c] = (if is_digit c then Some [c] else None)"
| "grouped_digits (c # u # r) =
     (if \<not> is_digit c then None
      else if u = CHR ''_'' then map_option (Cons c) (grouped_digits r)
      else map_option (Cons c) (grouped_digits (u # r)))"

definition split_sign :: "string \<Rightarrow> bool \<times> string" where
  "split_sign s =
     (case s of
        [] \<Rightarrow> (False, [])
      | c # r \<Rightarrow> if c = CHR ''-'' then (True, r) else if c = CHR ''+'' then (False, r) else (False, s))"

definition py_int :: "string \<Rightarrow> int option" where
  "py_int s =
     (case split_sign (strip_int s) of
        (neg, u) \<Rightarrow> map_option (\<lambda>ds. signed neg (digits_val ds)) (grouped_digits u))"

text \<open>
  \<open>decimal.Decimal(s)\<close>: white space around is dropped, then every underscore; what is
  left is a sign and either a number (digits with at most one point and at least one
  digit, then an optional exponent), an infinity or a NaN, letters in either case.
\<close>

fun strneq :: "string \<Rightarrow> string \<Rightarrow> string \<Rightarrow> bool" where
  "strneq s [] [] = True"
| "strneq (c # s) (l # ls) (u # us) = ((c = l \<or> c = u) \<and> strneq s ls us)"
| "strneq s ls us = False"

definition parse_exponent :: "string \<Rightarrow> int option" where
  "parse_exponent s =
     (case s of
        [] \<Rightarrow> Some 0
      | c # r \<Rightarrow>
          if c = CHR ''e'' \<or> c = CHR ''E'' then
            (case split_sign r of
               (neg, ds) \<Rightarrow>
                 if ds \<noteq> [] \<and> list_all is_digit ds then Some (signed neg (digits_val ds))
                 else None)
          else None)"

definition parse_number :: "bool \<Rightarrow> string \<Rightarrow> decimal option" where
  "parse_number sg s =
     (let intpart = takeWhile is_digit s;
          r1 = dropWhile is_digit s;
          (fracpart, r2) =
             (case r1 of
                [] \<Rightarrow> ([], r1)
              | c # r \<Rightarrow>
                  if c = CHR ''.'' then (takeWhile is_digit r, dropWhile is_digit r)
                  else ([], r1))
      in if intpart @ fracpart = [] then None
         else map_option
                (\<lambda>e. Finite sg (digits_val (intpart @ fracpart)) (e - int (length fracpart)))
                (parse_exponent r2))"

definition Decimal :: "string \<Rightarrow> exn + decimal" where
  "Decimal s =
     (case split_sign (filter (\<lambda>c. c \<noteq> CHR ''_'') (strip s)) of
        (sg, u) \<Rightarrow>
          if strneq u ''nan'' ''NAN'' then
            (if list_all is_digit (drop 3 u) then Inr NaN else Inl InvalidOperation)
          else if strneq u ''snan'' ''SNAN'' then
            (if list_all is_digit (drop 4 u) then Inr NaN else Inl InvalidOperation)
          else if strneq u ''inf'' ''INF'' then
            (if drop 3 u = [] \<or> (strneq (drop 3 u) ''inity'' ''INITY'' \<and> drop 8 u = [])
             then Inr (Infinity sg) else Inl InvalidOperation)
          else (case parse_number sg u of
                  None \<Rightarrow> Inl InvalidOperation
                | Some d \<Rightarrow> Inr d))"

text \<open>
  The comparisons \<open>a < b\<close> and \<open>a > b\<close> of \<open>Decimal\<close>, which raise
  \<open>InvalidOperation\<close> when one side is a NaN.
\<close>

definition dec_lt :: "decimal \<Rightarrow> decimal \<Rightarrow> exn + bool" where
  "dec_lt a b = (if a = NaN \<or> b = NaN then Inl InvalidOperation else Inr (dec_less a b))"

definition dec_gt :: "decimal \<Rightarrow> decimal \<Rightarrow> exn + bool" where
  "dec_gt a b = (if a = NaN \<or> b = NaN then Inl InvalidOperation else Inr (dec_less b a))"

text \<open>\<open>str\<close> of a \<open>Decimal\<close> (scientific notation where Python uses it).\<close>

definition str_sign :: "bool \<Rightarrow> string" where
  "str_sign s = (if s then ''-'' else [])"

definition str_decimal :: "decimal \<Rightarrow> string" where
  "str_decimal d =
     (case d of
        NaN \<Rightarrow> ''NaN''
      | Infinity s \<Rightarrow> str_sign s @ ''Infinity''
      | Finite s c e \<Rightarrow>
          (let ds = str_nat c;
               len = int (length ds);
               leftdigits = e + len;
               dotplace = (if e \<le> 0 \<and> - 6 < leftdigits then leftdigits else 1);
               intpart =
                 (if dotplace \<le> 0 then ''0''
                  else if len \<le> dotplace then ds @ replicate (nat (dotplace - len)) CHR ''0''
                  else take (nat dotplace) ds);
               fracpart =
                 (if dotplace \<le> 0 then ''.'' @ replicate (nat (- dotplace)) CHR ''0'' @ ds
                  else if len \<le> dotplace then []
                  else ''.'' @ drop (nat dotplace) ds);
               ex =
                 (if leftdigits = dotplace then []
                  else ''E'' @ (if leftdigits - dotplace < 0 then ''-'' else ''+'')
                         @ str_nat (nat \<bar>leftdigits - dotplace\<bar>))
           in str_sign s @ intpart @ fracpart @ ex))"

section \<open>HTTP handlers (\<open>views.py\<close>)\<close>

text \<open>
  A JSON value. \<open>JIsoformat t\<close> stands for the string \<open>t.isoformat()\<close> of a
  point in time, whose text no property below depends on. \<open>JMessage prefix e\<close>
  stands for the string \<open>prefix + str(e)\<close> of an exception whose text is not spelled
  out here.
\<close>

datatype json =
  JNull
| JBool bool
| JInt int
| JStr string
| JIsoformat int
| JMessage string exn
| JList "json list"
| JObj "(string \<times> json) list"

record response =
  status :: nat
  body :: json

text \<open>\<open>request.GET\<close>, the query parameters.\<close>

record request =
  GET :: "string \<rightharpoonup> string"

definition JsonResponse :: "json \<Rightarrow> nat \<Rightarrow> response" where
  "JsonResponse data st = \<lparr>status = st, body = data\<rparr>"

definition error_data :: "string \<Rightarrow> json" where
  "error_data msg = JObj [(''success'', JBool False), (''error'', JStr msg)]"

text \<open>
  \<open>str(e)\<close> of an exception, where it is spelled out. The text of Django's
  \<open>ValidationError\<close> has quotation marks that are no code points of these strings,
  and is not. Only the message of a \<open>ValueError\<close> is part of a property below.
\<close>

fun exn_text :: "exn \<Rightarrow> string option" where
  "exn_text (ValueError msg) = Some msg"
| "exn_text InvalidOperation =
     Some (''[<class '' @ [CHR 0x27] @ ''decimal.InvalidOperation'' @ [CHR 0x27] @ ''>]'')"
| "exn_text (ValidationError v) = None"
| "exn_text DoesNotExist = Some ''Product matching query does not exist.''"
| "exn_text (MultipleObjectsReturned n) =
     Some (''get() returned more than one Product -- it returned '' @ str_nat n @ ''!'')"
| "exn_text DatabaseError = Some []"

text \<open>The answer \<open>{'success': False, 'error': f'<prefix>{str(e)}'}\<close>.\<close>

definition exn_data :: "string \<Rightarrow> exn \<Rightarrow> json" where
  "exn_data prefix e =
     JObj [(''success'', JBool False),
           (''error'', (case exn_text e of
                          Some msg \<Rightarrow> JStr (prefix @ msg)
                        | None \<Rightarrow> JMessage prefix e))]"

subsection \<open>\<open>ProductSearchView\<close>\<close>

text \<open>
  \<open>_get_category_id\<close>: an absent or empty parameter is \<open>None\<close>; otherwise
  \<open>int\<close> of it, whose failure is raised again with the message of the view.
\<close>

definition get_category_id :: "request \<Rightarrow> exn + int option" where
  "get_category_id req =
     (case GET req ''category_id'' of
        None \<Rightarrow> Inr None
      | Some s \<Rightarrow>
          if s \<noteq> [] then
            (case py_int s of
               Some n \<Rightarrow> Inr (Some n)
             | None \<Rightarrow> Inl (ValueError ''category_id must be a valid number''))
          else Inr None)"

text \<open>
  \<open>_get_price_range\<close>. Each bound is parsed inside a \<open>try\<close>: \<open>price_try\<close> is the
  body, in which the \<open>ValueError\<close> for a negative price is raised, and
  \<open>price_except\<close> is the clause \<open>except (ValueError, decimal.InvalidOperation)\<close>
  around that body, which raises a \<open>ValueError\<close> with the message of the bound.
  The source writes this block twice, for \<open>min_price\<close> and for \<open>max_price\<close>;
  \<open>get_price\<close> is the block, with the parameter and its message as arguments.
\<close>

definition price_try :: "string \<Rightarrow> exn + decimal" where
  "price_try s =
     (case Decimal s of
        Inl e \<Rightarrow> Inl e
      | Inr p \<Rightarrow>
          (case dec_lt p (Finite False 0 0) of
             Inl e \<Rightarrow> Inl e
           | Inr negative \<Rightarrow>
               if negative then Inl (ValueError ''Price cannot be negative'') else Inr p))"

fun price_except :: "string \<Rightarrow> exn + decimal \<Rightarrow> exn + decimal" where
  "price_except msg (Inr p) = Inr p"
| "price_except msg (Inl (ValueError m)) = Inl (ValueError msg)"
| "price_except msg (Inl InvalidOperation) = Inl (ValueError msg)"
| "price_except msg (Inl e) = Inl e"

definition get_price :: "request \<Rightarrow> string \<Rightarrow> string \<Rightarrow> exn + decimal option" where
  "get_price req key msg =
     (case GET req key of
        None \<Rightarrow> Inr None
      | Some s \<Rightarrow>
          if s \<noteq> [] then
            (case price_except msg (price_try s) of
               Inl e \<Rightarrow> Inl e
             | Inr p \<Rightarrow> Inr (Some p))
          else Inr None)"

definition get_price_range :: "request \<Rightarrow> exn + (decimal option \<times> decimal option)" where
  "get_price_range req =
     (case get_price req ''min_price'' ''min_price must be a valid dollar amount'' of
        Inl e \<Rightarrow> Inl e
      | Inr min_price \<Rightarrow>
          (case get_price req ''max_price'' ''max_price must be a valid dollar amount'' of
             Inl e \<Rightarrow> Inl e
           | Inr max_price \<Rightarrow> Inr (min_price, max_price)))"

text \<open>
  The entry of one product in \<open>products\<close>, and the loop that builds the list. The
  loop reads \<open>product.category\<close> twice; the second read finds the instance that the
  first one left on the product, so one \<open>get_category\<close> stands for both.
\<close>

definition product_data :: "product \<Rightarrow> category \<Rightarrow> json" where
  "product_data p c =
     JObj [(''id'', JInt (prod_id p)),
           (''sku'', JStr (sku p)),
           (''name'', JStr (name p)),
           (''price'', JStr (str_decimal (price p))),
           (''is_active'', JBool (is_active p)),
           (''category'', JObj [(''id'', JInt (cat_id c)), (''name'', JStr (cat_name c))]),
           (''created_at'', JIsoformat (created_at p)),
           (''description'', JStr (description p))]"

fun products_data :: "product_obj list \<Rightarrow> db \<Rightarrow> (exn + json list) \<times> db" where
  "products_data [] d = (Inr [], d)"
| "products_data (obj # objs) d =
     (case get_category obj d of
        (Inl e, d1) \<Rightarrow> (Inl e, d1)
      | (Inr c, d1) \<Rightarrow>
          (case products_data objs d1 of
             (Inl e, d2) \<Rightarrow> (Inl e, d2)
           | (Inr js, d2) \<Rightarrow> (Inr (product_data (row obj) c # js), d2)))"

definition json_option :: "('a \<Rightarrow> json) \<Rightarrow> 'a option \<Rightarrow> json" where
  "json_option f v = (case v of None \<Rightarrow> JNull | Some x \<Rightarrow> f x)"

definition filters_data :: "search_filters \<Rightarrow> json" where
  "filters_data filters =
     JObj [(''category_id'', json_option JInt (filter_category_id filters)),
           (''min_price'', json_option (\<lambda>p. JStr (str_decimal p)) (filter_min_price filters)),
           (''max_price'', json_option (\<lambda>p. JStr (str_decimal p)) (filter_max_price filters))]"

text \<open>
  The check \<open>min_price > max_price\<close> of \<open>get\<close>, made when both bounds are there.
\<close>

definition min_above_max :: "decimal option \<Rightarrow> decimal option \<Rightarrow> exn + bool" where
  "min_above_max min_price max_price =
     (case (min_price, max_price) of
        (Some lo, Some hi) \<Rightarrow> dec_gt lo hi
      | _ \<Rightarrow> Inr False)"

text \<open>The body of the \<open>try\<close> of \<open>ProductSearchView.get\<close>.\<close>

definition search_try :: "request \<Rightarrow> db \<Rightarrow> (exn + response) \<times> db" where
  "search_try req d =
     (case get_category_id req of
        Inl e \<Rightarrow> (Inl e, d)
      | Inr cid \<Rightarrow>
          (case get_price_range req of
             Inl e \<Rightarrow> (Inl e, d)
           | Inr (min_price, max_price) \<Rightarrow>
               (case min_above_max min_price max_price of
                  Inl e \<Rightarrow> (Inl e, d)
                | Inr inverted \<Rightarrow>
                    if inverted then
                      (Inr (JsonResponse
                              (error_data ''Minimum price cannot be greater than maximum price'')
                              400), d)
                    else
                      (let filters = \<lparr>filter_category_id = cid, filter_min_price = min_price,
                                       filter_max_price = max_price\<rparr>
                       in case service_search_products filters of
                            Inl e \<Rightarrow> (Inl e, d)
                          | Inr products_queryset \<Rightarrow>
                              (case fetch_all products_queryset d of
                                 (objs, d1) \<Rightarrow>
                                   (case products_data objs d1 of
                                      (Inl e, d2) \<Rightarrow> (Inl e, d2)
                                    | (Inr js, d2) \<Rightarrow>
                                        (Inr (JsonResponse
                                                (JObj [(''success'', JBool True),
                                                       (''products'', JList js),
                                                       (''count'', JInt (int (length js))),
                                                       (''filters_applied'',
                                                          filters_data filters)])
                                                200), d2)))))))"

text \<open>The \<open>except\<close> clauses of \<open>ProductSearchView.get\<close>, in their order.\<close>

fun search_except :: "exn \<Rightarrow> response" where
  "search_except (ValueError msg) = JsonResponse (error_data (''Invalid parameter: '' @ msg)) 400"
| "search_except DatabaseError = JsonResponse (error_data ''Database error occurred'') 500"
| "search_except e = JsonResponse (exn_data ''Unexpected server error: '' e) 500"

definition search_get :: "request \<Rightarrow> db \<Rightarrow> response \<times> db" where
  "search_get req d =
     (case search_try req d of
        (Inl e, d1) \<Rightarrow> (search_except e, d1)
      | (Inr r, d1) \<Rightarrow> (r, d1))"

subsection \<open>\<open>ProductDetailView\<close>\<close>

text \<open>
  \<open>urls.py\<close> routes \<open>api/products/<int:product_id>/\<close> to this view, so
  \<open>product_id\<close> is an integer and the first check of \<open>get\<close> lets it pass.
\<close>

definition product_data_detail :: "product \<Rightarrow> category \<Rightarrow> json" where
  "product_data_detail p c =
     JObj [(''id'', JInt (prod_id p)),
           (''sku'', JStr (sku p)),
           (''name'', JStr (name p)),
           (''price'', JStr (str_decimal (price p))),
           (''is_active'', JBool (is_active p)),
           (''category'', JObj [(''id'', JInt (cat_id c)), (''name'', JStr (cat_name c))]),
           (''description'', JStr (description p)),
           (''created_at'', JIsoformat (created_at p))]"

definition detail_try :: "int \<Rightarrow> db \<Rightarrow> (exn + response) \<times> db" where
  "detail_try product_id d =
     (case get_product_detail product_id d of
        (Inl e, d1) \<Rightarrow> (Inl e, d1)
      | (Inr obj, d1) \<Rightarrow>
          (case get_category obj d1 of
             (Inl e, d2) \<Rightarrow> (Inl e, d2)
           | (Inr c, d2) \<Rightarrow>
               (Inr (JsonResponse
                       (JObj [(''success'', JBool True),
                              (''product'', product_data_detail (row obj) c)])
                       200), d2)))"

fun detail_except :: "exn \<Rightarrow> response" where
  "detail_except DoesNotExist = JsonResponse (error_data ''Product not found'') 404"
| "detail_except DatabaseError = JsonResponse (error_data ''Database error occurred'') 500"
| "detail_except e = JsonResponse (exn_data ''Unexpected error: '' e) 500"

definition detail_get :: "int \<Rightarrow> db \<Rightarrow> response \<times> db" where
  "detail_get product_id d =
     (case detail_try product_id d of
        (Inl e, d1) \<Rightarrow> (detail_except e, d1)
      | (Inr r, d1) \<Rightarrow> (r, d1))"

text \<open>Reading a field of a JSON object.\<close>

fun field :: "string \<Rightarrow> json \<Rightarrow> json option" where
  "field k (JObj kvs) = map_of kvs k"
| "field k j = None"

section \<open>The catalogue of the tests\<close>

text \<open>
  The data of \<open>ProductModelTest.setUp\<close>: two categories, three active products and an
  inactive one, created in this order.
\<close>

definition electronics :: category where
  "electronics = \<lparr>cat_id = 1, cat_name = ''Electronics'',
     cat_description = ''Phones, laptops, gadgets'', cat_is_active = True, cat_created_at = 1\<rparr>"

definition clothing :: category where
  "clothing = \<lparr>cat_id = 2, cat_name = ''Clothing'',
     cat_description = ''Shirts, pants, accessories'', cat_is_active = True, cat_created_at = 2\<rparr>"

definition phone :: product where
  "phone = \<lparr>prod_id = 1, sku = ''PHONE001'', name = ''Smartphone'',
     price = Finite False 59999 (- 2), is_active = True, category_id = 1, created_at = 3,
     description = []\<rparr>"

definition laptop :: product where
  "laptop = \<lparr>prod_id = 2, sku = ''LAPTOP001'', name = ''Gaming Laptop'',
     price = Finite False 129999 (- 2), is_active = True, category_id = 1, created_at = 4,
     description = []\<rparr>"

definition shirt :: product where
  "shirt = \<lparr>prod_id = 3, sku = ''SHIRT001'', name = ''Cotton T-Shirt'',
     price = Finite False 2499 (- 2), is_active = True, category_id = 2, created_at = 5,
     description = []\<rparr>"

definition old_tablet :: product where
  "old_tablet = \<lparr>prod_id = 4, sku = ''TABLET001'', name = ''Old Tablet'',
     price = Finite False 19999 (- 2), is_active = False, category_id = 1, created_at = 6,
     description = []\<rparr>"

text \<open>
  The store of the tests keeps 64-bit keys, and its plan yields rows in the order of
  their keys.
\<close>

definition shop :: db where
  "shop = \<lparr>products = [phone, laptop, shirt, old_tablet],
     categories = [electronics, clothing], queries = 0,
     plan = (\<lambda>q p. prod_id p),
     key_in_range = (\<lambda>i. - (2 ^ 63) \<le> i \<and> i < 2 ^ 63)\<rparr>"

text \<open>The same catalogue after the phone and the laptop were given one creation time.\<close>

definition shop_tied :: db where
  "shop_tied = shop\<lparr>products := [phone, laptop\<lparr>created_at := 3\<rparr>, shirt, old_tablet]\<rparr>"

section \<open>Querysets and their evaluation\<close>

lemma search_products_eq:
  "search_products cid mn mx =
     (case (mn, mx) of
        (Some lo, Some hi) \<Rightarrow>
          if \<not> is_finite lo then Inl (ValidationError lo)
          else if \<not> is_finite hi then Inl (ValidationError hi)
          else Inr \<lparr>wheres = Is_active True #
                       (case cid of None \<Rightarrow> [] | Some c \<Rightarrow> if c \<noteq> 0 then [Category_id c] else []) @
                       [Price_range lo hi],
                     related = True, ordering = [Desc_created_at]\<rparr>
      | _ \<Rightarrow>
          Inr \<lparr>wheres = Is_active True #
                  (case cid of None \<Rightarrow> [] | Some c \<Rightarrow> if c \<noteq> 0 then [Category_id c] else []),
                related = True, ordering = [Desc_created_at]\<rparr>)"
  by (simp add: search_products_def active_products_def by_category_def by_price_range_def
      filter_qs_def order_by_def select_related_def get_queryset_def Let_def
      split: option.splits)

lemma search_products_Inr:
  assumes "search_products cid mn mx = Inr q"
  shows "related q" and "ordering q = [Desc_created_at]"
    and "wheres q =
           Is_active True #
           (case cid of None \<Rightarrow> [] | Some c \<Rightarrow> if c \<noteq> 0 then [Category_id c] else []) @
           (case (mn, mx) of (Some lo, Some hi) \<Rightarrow> [Price_range lo hi] | _ \<Rightarrow> [])"
  using assms unfolding search_products_eq
  by (auto split: option.splits if_splits)

lemma search_products_no_key: "search_products cid mn mx = Inr q \<Longrightarrow> \<not> list_ex (out_of_range d) (wheres q)"
  by (auto simp: search_products_Inr(3) list_ex_iff split: option.splits if_splits)

lemma search_products_finite:
  "is_finite lo \<Longrightarrow> is_finite hi \<Longrightarrow> \<exists>q. search_products cid (Some lo) (Some hi) = Inr q"
  by (simp add: search_products_eq)

lemma search_products_one_bound:
  "mn = None \<or> mx = None \<Longrightarrow> \<exists>q. search_products cid mn mx = Inr q"
  by (auto simp: search_products_eq split: option.splits)

lemma search_list_Inr:
  "search_products cid mn mx = Inr q \<Longrightarrow>
   search_list cid mn mx d = (Inr (run_query d q), d\<lparr>queries := Suc (queries d)\<rparr>)"
  by (simp add: search_list_def fetch_all_def search_products_no_key)

lemma search_list_Inl:
  "search_products cid mn mx = Inl e \<Longrightarrow> search_list cid mn mx d = (Inl e, d)"
  by (simp add: search_list_def)

lemma search_list_result:
  assumes "fst (search_list cid mn mx d) = Inr objs"
  obtains q where "search_products cid mn mx = Inr q" and "objs = run_query d q"
proof (cases "search_products cid mn mx")
  case (Inl e)
  with assms show ?thesis by (simp add: search_list_Inl)
next
  case (Inr q)
  with assms that show ?thesis by (simp add: search_list_Inr)
qed

lemma set_apply_ordering: "set (apply_ordering rank ts rows) = set rows"
  by (induction rank ts rows rule: apply_ordering.induct) simp_all

lemma set_select_rows:
  "set (select_rows d q) = {p \<in> set (products d). list_all (matches p) (wheres q)}"
  by (auto simp: select_rows_def set_apply_ordering)

lemma join_category_ok:
  assumes "store_ok d" and "p \<in> set (products d)"
  shows "\<exists>c. join_category (categories d) p = Some \<lparr>row = p, category_cache = Some c\<rparr>
            \<and> c \<in> set (categories d) \<and> cat_id c = category_id p"
proof -
  from assms have "category_id p \<in> set (map cat_id (categories d))"
    by (auto simp: store_ok_def list_all_iff)
  then obtain c where found: "find (\<lambda>c. cat_id c = category_id p) (categories d) = Some c"
    by (cases "find (\<lambda>c. cat_id c = category_id p) (categories d)") (auto simp: find_None_iff)
  then have "c \<in> set (categories d) \<and> cat_id c = category_id p"
    by (auto simp: find_Some_iff)
  with found show ?thesis by (simp add: join_category_def)
qed

lemma join_category_Some:
  "join_category cs p = Some obj \<Longrightarrow> row obj = p \<and> category_cache obj \<noteq> None"
  by (auto simp: join_category_def)

lemma map_filter_join_all:
  "list_all (\<lambda>p. join_category cs p \<noteq> None) rows \<Longrightarrow>
   map row (List.map_filter (join_category cs) rows) = rows"
  by (induction rows) (auto simp: List.map_filter_simps join_category_Some)

lemma set_map_filter_join:
  "obj \<in> set (List.map_filter (join_category cs) rows) \<Longrightarrow>
   row obj \<in> set rows \<and> category_cache obj \<noteq> None"
  by (auto simp: List.map_filter_def dest: join_category_Some)

lemma set_rows_map_filter_join:
  "set (map row (List.map_filter (join_category cs) rows)) =
     {p \<in> set rows. join_category cs p \<noteq> None}"
  by (induction rows) (auto simp: List.map_filter_simps join_category_Some split: option.splits)

lemma rows_run_query:
  assumes "store_ok d"
  shows "map row (run_query d q) = select_rows d q"
proof (cases "related q")
  case True
  have "list_all (\<lambda>p. join_category (categories d) p \<noteq> None) (select_rows d q)"
    unfolding list_all_iff using join_category_ok [OF assms] by (fastforce simp: set_select_rows)
  with True show ?thesis by (simp add: run_query_def map_filter_join_all)
next
  case False
  then show ?thesis by (simp add: run_query_def comp_def)
qed

lemma run_query_row_in_store: "obj \<in> set (run_query d q) \<Longrightarrow> row obj \<in> set (products d)"
  by (auto simp: run_query_def set_select_rows dest!: set_map_filter_join split: if_splits)

lemma run_query_related_cached:
  "related q \<Longrightarrow> obj \<in> set (run_query d q) \<Longrightarrow> category_cache obj \<noteq> None"
  by (auto simp: run_query_def dest!: set_map_filter_join)

lemma sorted_desc_apply_ordering:
  "sorted_wrt (\<lambda>a b. created_at b \<le> created_at a) (apply_ordering rank [Desc_created_at] rows)"
proof -
  have "sorted (map (\<lambda>p. - created_at p) (sort_key (\<lambda>p. - created_at p) (sort_key rank rows)))"
    by (rule sorted_sort_key)
  then show ?thesis by (simp add: sorted_map)
qed

lemma sorted_wrt_map_filter_join:
  "sorted_wrt (\<lambda>a b. created_at b \<le> created_at a) rows \<Longrightarrow>
   sorted_wrt (\<lambda>a b. created_at (row b) \<le> created_at (row a))
     (List.map_filter (join_category cs) rows)"
proof (induction rows)
  case Nil
  then show ?case by (simp add: List.map_filter_simps)
next
  case (Cons p rows)
  then show ?case
    by (auto simp: List.map_filter_simps join_category_Some dest!: set_map_filter_join
        split: option.splits)
qed

lemma store_ok_shop: "store_ok shop"
  by (simp add: store_ok_def shop_def phone_def laptop_def shirt_def old_tablet_def
      electronics_def clothing_def)

lemmas shop_defs = shop_def shop_tied_def phone_def laptop_def shirt_def old_tablet_def
  electronics_def clothing_def

lemmas query_defs = search_list_def search_products_eq fetch_all_def run_query_def
  select_rows_def join_category_def List.map_filter_simps signed_def

text \<open>The rows of a search, on a store that keeps its keys.\<close>

lemma search_rows:
  assumes "store_ok d" and "fst (search_list cid mn mx d) = Inr objs"
  shows "p \<in> set (map row objs) \<longleftrightarrow>
            p \<in> set (products d) \<and> is_active p \<and>
            (case cid of None \<Rightarrow> True | Some c \<Rightarrow> c = 0 \<or> category_id p = c) \<and>
            (case (mn, mx) of
               (Some lo, Some hi) \<Rightarrow> dec_le lo (price p) \<and> dec_le (price p) hi
             | _ \<Rightarrow> True)"
proof -
  from assms(2) obtain q where q: "search_products cid mn mx = Inr q" and "objs = run_query d q"
    by (rule search_list_result)
  then have "set (map row objs) = {p \<in> set (products d). list_all (matches p) (wheres q)}"
    using rows_run_query [OF assms(1), of q] by (simp add: set_select_rows flip: set_map)
  then show ?thesis
    unfolding search_products_Inr(3) [OF q] by (auto split: option.splits)
qed

text \<open>
  Claim C1 does not hold of the code. The search for the category id 0 is the search
  without a category: \<open>if category_id:\<close> is false for 0, so no condition on the category
  is added. In the catalogue of the tests it returns the three active products, of
  categories 2, 1 and 1, none of which has the category 0.
\<close>

theorem category_zero_not_filtered:
  "search_products (Some 0) None None = search_products None None None \<and>
   map_sum id (map (\<lambda>obj. (prod_id (row obj), category_id (row obj))))
     (fst (search_list (Some 0) None None shop)) = Inr [(3, 2), (2, 1), (1, 1)]"
  by (simp add: query_defs shop_defs)

text \<open>
  Claim C2, as the code has it. The results of a search come newest first: of two
  results, the earlier one has a \<open>created_at\<close> that is not smaller than that of the
  later one. The code orders by \<open>-created_at\<close> alone, so nothing is promised about
  two products created at the same time.
\<close>

theorem search_products_newest_first:
  assumes "fst (search_list cid mn mx d) = Inr objs"
  shows "sorted_wrt (\<lambda>a b. created_at (row b) \<le> created_at (row a)) objs"
proof -
  from assms obtain q where q: "search_products cid mn mx = Inr q" and objs: "objs = run_query d q"
    by (rule search_list_result)
  show ?thesis
    unfolding objs run_query_def select_rows_def search_products_Inr(2) [OF q]
    using search_products_Inr(1) [OF q]
    by (simp add: sorted_wrt_map_filter_join sorted_desc_apply_ordering
        del: apply_ordering.simps)
qed

text \<open>
  The unfiltered search of the catalogue of the tests yields the creation times 5, 4, 3.
\<close>

theorem search_products_newest_first_witness:
  "\<exists>objs. fst (search_list None None None shop) = Inr objs \<and>
          map (\<lambda>obj. created_at (row obj)) objs = [5, 4, 3] \<and>
          sorted_wrt (\<lambda>a b. created_at (row b) \<le> created_at (row a)) objs"
proof -
  have run: "fst (search_list None None None shop) =
      Inr [\<lparr>row = shirt, category_cache = Some clothing\<rparr>,
           \<lparr>row = laptop, category_cache = Some electronics\<rparr>,
           \<lparr>row = phone, category_cache = Some electronics\<rparr>]"
    by (simp add: query_defs shop_defs)
  from search_products_newest_first [OF run] run show ?thesis
    by (simp add: shop_defs)
qed

text \<open>
  Claim C2 as stated fails when two products share a creation time: the phone (id 1)
  comes before the laptop (id 2), both created at time 3.
\<close>

theorem search_tie_counterexample:
  "map_sum id (map (\<lambda>obj. (created_at (row obj), prod_id (row obj))))
     (fst (search_list None None None shop_tied)) = Inr [(5, 3), (3, 1), (3, 2)]"
  by (simp add: query_defs shop_defs)

text \<open>
  Claim C4. A search with only the lower or only the upper price bound is the search
  with neither: the same queryset, the same results and the same store afterwards. The
  condition \<open>price__range=(lo, hi)\<close> is among the conditions of a search exactly when
  \<open>lo\<close> and \<open>hi\<close> are the two bounds that were given; when both are given (and finite),
  the queryset is that of the search without bounds with this one condition added.
\<close>

theorem single_price_bound_ignored:
  "search_products cid (Some lo) None = search_products cid None None \<and>
   search_products cid None (Some hi) = search_products cid None None \<and>
   search_list cid (Some lo) None d = search_list cid None None d \<and>
   search_list cid None (Some hi) d = search_list cid None None d \<and>
   (\<forall>q. search_products cid mn mx = Inr q \<longrightarrow>
      (Price_range lo hi \<in> set (wheres q) \<longleftrightarrow> mn = Some lo \<and> mx = Some hi)) \<and>
   (is_finite lo \<and> is_finite hi \<longrightarrow>
      (\<exists>q0. search_products cid None None = Inr q0 \<and>
            search_products cid (Some lo) (Some hi) = Inr (filter_qs (Price_range lo hi) q0)))"
proof -
  have build: "search_products cid (Some lo) None = search_products cid None None"
    "search_products cid None (Some hi) = search_products cid None None"
    by (simp_all add: search_products_eq)
  have one: "search_list cid (Some lo) None d = search_list cid None None d"
    "search_list cid None (Some hi) d = search_list cid None None d"
    by (simp_all add: search_list_def search_products_eq)
  have iff: "\<forall>q. search_products cid mn mx = Inr q \<longrightarrow>
      (Price_range lo hi \<in> set (wheres q) \<longleftrightarrow> mn = Some lo \<and> mx = Some hi)"
  proof (intro allI impI)
    fix q assume "search_products cid mn mx = Inr q"
    from search_products_Inr(3) [OF this]
    show "Price_range lo hi \<in> set (wheres q) \<longleftrightarrow> mn = Some lo \<and> mx = Some hi"
      by (auto split: option.splits if_splits)
  qed
  have both: "\<exists>q0. search_products cid None None = Inr q0 \<and>
            search_products cid (Some lo) (Some hi) = Inr (filter_qs (Price_range lo hi) q0)"
    if finite: "is_finite lo" "is_finite hi"
  proof -
    obtain q0 where q0: "search_products cid None None = Inr q0"
      using search_products_one_bound [of None None cid] by blast
    from finite have "search_products cid (Some lo) (Some hi) =
        Inr (filter_qs (Price_range lo hi) q0)"
      using q0 by (auto simp: search_products_eq filter_qs_def)
    with q0 show ?thesis by blast
  qed
  from build one iff both show ?thesis by blast
qed

text \<open>
  With only a lower bound of 500 the search of the catalogue of the tests is the search
  without bounds, which returns the shirt, the laptop and the phone; with the bounds 500
  and 1500 the condition \<open>price__range=(500, 1500)\<close> is among the conditions of the
  queryset, and the search returns the laptop and the phone.
\<close>

theorem single_price_bound_ignored_witness:
  "search_list None (Some (Finite False 500 0)) None shop = search_list None None None shop \<and>
   map_sum id (map (\<lambda>obj. prod_id (row obj)))
     (fst (search_list None (Some (Finite False 500 0)) None shop)) = Inr [3, 2, 1] \<and>
   (\<exists>q. search_products None (Some (Finite False 500 0)) (Some (Finite False 1500 0)) = Inr q \<and>
        Price_range (Finite False 500 0) (Finite False 1500 0) \<in> set (wheres q)) \<and>
   map_sum id (map (\<lambda>obj. prod_id (row obj)))
     (fst (search_list None (Some (Finite False 500 0)) (Some (Finite False 1500 0)) shop)) =
     Inr [2, 1]"
proof -
  note fact = single_price_bound_ignored [of None "Finite False 500 0" "Finite False 1500 0" shop
      "Some (Finite False 500 0)" "Some (Finite False 1500 0)"]
  from fact
  have one: "search_list None (Some (Finite False 500 0)) None shop = search_list None None None shop"
    by blast
  have "is_finite (Finite False 500 0) \<and> is_finite (Finite False 1500 0)"
    by simp
  with fact obtain q where
    q: "search_products None (Some (Finite False 500 0)) (Some (Finite False 1500 0)) = Inr q"
    by blast
  with fact have two: "\<exists>q. search_products None (Some (Finite False 500 0))
        (Some (Finite False 1500 0)) = Inr q \<and>
      Price_range (Finite False 500 0) (Finite False 1500 0) \<in> set (wheres q)"
    by blast
  have three: "map_sum id (map (\<lambda>obj. prod_id (row obj)))
     (fst (search_list None (Some (Finite False 500 0)) None shop)) = Inr [3, 2, 1]"
    by (simp add: query_defs shop_defs)
  have four: "map_sum id (map (\<lambda>obj. prod_id (row obj)))
     (fst (search_list None (Some (Finite False 500 0)) (Some (Finite False 1500 0)) shop)) =
     Inr [2, 1]"
    by (simp add: query_defs shop_defs)
  from one two three four show ?thesis by blast
qed

text \<open>Lookup by primary key.\<close>

lemma filter_key_unique:
  "distinct (map f xs) \<Longrightarrow> x \<in> set xs \<Longrightarrow> filter (\<lambda>y. f y = f x) xs = [x]"
proof (induction xs)
  case Nil
  then show ?case by simp
next
  case (Cons y ys)
  show ?case
  proof (cases "x = y")
    case True
    with Cons.prems have "f y \<notin> f ` set ys" by simp
    then have "\<forall>z\<in>set ys. f z \<noteq> f y" by (metis imageI)
    with True have "filter (\<lambda>z. f z = f x) ys = []"
      by (simp add: filter_empty_conv)
    with True show ?thesis by simp
  next
    case False
    with Cons show ?thesis by auto
  qed
qed

lemma wheres_by_id: "wheres (filter_qs (Id i) (select_related get_queryset)) = [Id i]"
  by (simp add: filter_qs_def select_related_def get_queryset_def)

lemma select_rows_by_id:
  "set (select_rows d (filter_qs (Id i) (select_related get_queryset))) =
     {p \<in> set (products d). prod_id p = i}"
  by (auto simp: set_select_rows wheres_by_id)

lemma select_rows_single:
  assumes "filter (\<lambda>p. prod_id p = i) (products d) = [p]"
  shows "select_rows d (filter_qs (Id i) (select_related get_queryset)) = [p]"
  using assms
  by (simp add: select_rows_def filter_qs_def select_related_def get_queryset_def)

lemma related_by_id: "related (filter_qs (Id pid) (select_related get_queryset))"
  by (simp add: filter_qs_def select_related_def)

lemma fetch_by_id:
  "fetch_all (filter_qs (Id i) (select_related get_queryset)) d =
     (if key_in_range d i
      then (run_query d (filter_qs (Id i) (select_related get_queryset)),
            d\<lparr>queries := Suc (queries d)\<rparr>)
      else ([], d))"
  by (simp add: fetch_all_def wheres_by_id)

lemma get_product_detail_found:
  assumes "store_ok d" and "p \<in> set (products d)"
  shows "\<exists>c. get_product_detail (prod_id p) d =
              (Inr \<lparr>row = p, category_cache = Some c\<rparr>, d\<lparr>queries := Suc (queries d)\<rparr>)
            \<and> c \<in> set (categories d) \<and> cat_id c = category_id p"
proof -
  from assms have range: "key_in_range d (prod_id p)"
    by (auto simp: store_ok_def list_all_iff)
  from assms have "filter (\<lambda>q. prod_id q = prod_id p) (products d) = [p]"
    by (simp add: store_ok_def filter_key_unique)
  then have rows: "select_rows d (filter_qs (Id (prod_id p)) (select_related get_queryset)) = [p]"
    by (rule select_rows_single)
  obtain c where "join_category (categories d) p = Some \<lparr>row = p, category_cache = Some c\<rparr>"
      and c: "c \<in> set (categories d) \<and> cat_id c = category_id p"
    using join_category_ok [OF assms] by blast
  with rows related_by_id [of "prod_id p"]
  have "run_query d (filter_qs (Id (prod_id p)) (select_related get_queryset)) =
      [\<lparr>row = p, category_cache = Some c\<rparr>]"
    by (simp add: run_query_def List.map_filter_simps)
  with range c show ?thesis
    by (simp add: get_product_detail_def get_where_def fetch_by_id)
qed

text \<open>
  Claim C5. On a store that keeps its keys, \<open>get_product_detail\<close> of the id of any
  product of the store, active or not, returns that product together with its category;
  a product that is not active is in no search result, and is still returned here.
\<close>

theorem get_product_detail_no_active_filter:
  assumes "store_ok d" and "p \<in> set (products d)"
  shows "(\<exists>c. fst (get_product_detail (prod_id p) d) = Inr \<lparr>row = p, category_cache = Some c\<rparr>
              \<and> c \<in> set (categories d) \<and> cat_id c = category_id p) \<and>
         (is_active p \<or>
            (\<forall>objs. fst (search_list cid mn mx d) = Inr objs \<longrightarrow> p \<notin> set (map row objs)))"
proof -
  from get_product_detail_found [OF assms] obtain c where
    "get_product_detail (prod_id p) d =
       (Inr \<lparr>row = p, category_cache = Some c\<rparr>, d\<lparr>queries := Suc (queries d)\<rparr>)"
    "c \<in> set (categories d) \<and> cat_id c = category_id p"
    by blast
  then have "\<exists>c. fst (get_product_detail (prod_id p) d) = Inr \<lparr>row = p, category_cache = Some c\<rparr>
              \<and> c \<in> set (categories d) \<and> cat_id c = category_id p"
    by auto
  moreover have "is_active p \<or>
      (\<forall>objs. fst (search_list cid mn mx d) = Inr objs \<longrightarrow> p \<notin> set (map row objs))"
    using search_rows [OF assms(1), of cid mn mx _ p] by blast
  ultimately show ?thesis by blast
qed

text \<open>
  The inactive tablet of the catalogue of the tests is returned by id, with its category,
  and is not among the results of the unfiltered search.
\<close>

theorem get_product_detail_no_active_filter_witness:
  "store_ok shop \<and> old_tablet \<in> set (products shop) \<and> \<not> is_active old_tablet \<and>
   fst (get_product_detail 4 shop) = Inr \<lparr>row = old_tablet, category_cache = Some electronics\<rparr> \<and>
   (\<exists>objs. fst (search_list None None None shop) = Inr objs \<and> old_tablet \<notin> set (map row objs))"
proof -
  have run: "\<exists>objs. fst (search_list None None None shop) = Inr objs"
    by (simp add: query_defs)
  have tablet: "old_tablet \<in> set (products shop)" "\<not> is_active old_tablet"
    "prod_id old_tablet = 4" "category_id old_tablet = 1"
    by (simp_all add: shop_defs)
  from get_product_detail_no_active_filter [OF store_ok_shop tablet(1), of None None None]
  have "(\<exists>c. fst (get_product_detail 4 shop) = Inr \<lparr>row = old_tablet, category_cache = Some c\<rparr>
              \<and> c \<in> set (categories shop) \<and> cat_id c = 1) \<and>
        (\<forall>objs. fst (search_list None None None shop) = Inr objs \<longrightarrow>
            old_tablet \<notin> set (map row objs))"
    using tablet by simp
  moreover have "c = electronics" if "c \<in> set (categories shop) \<and> cat_id c = 1" for c
    using that by (auto simp: shop_defs)
  ultimately show ?thesis using run tablet store_ok_shop by blast
qed

section \<open>Library functions\<close>

declare str_nat.simps [simp del]

lemma str_nat_small [simp]: "n < 10 \<Longrightarrow> str_nat n = [digit_char n]"
  by (subst str_nat.simps) simp

lemma str_nat_large [simp]:
  "\<not> n < 10 \<Longrightarrow> str_nat n = str_nat (n div 10) @ [digit_char (n mod 10)]"
  by (subst str_nat.simps) simp

lemmas parse_defs = Decimal_def py_int_def strip_def strip_int_def split_sign_def is_space_def
  is_space_int_def is_digit_def parse_number_def parse_exponent_def digits_val_def
  digit_val_def signed_def

lemma Decimal_empty: "Decimal [] = Inl InvalidOperation"
  by (simp add: parse_defs)


text \<open>\<open>int\<close> does not skip the separators 28 to 31, which \<open>Decimal\<close> skips.\<close>

lemma py_int_separator: "py_int [CHR 0x1C, CHR ''0''] = None"
  by (simp add: parse_defs)

lemma Decimal_separator: "Decimal [CHR 0x1C, CHR ''5''] = Inr (Finite False 5 0)"
  by (simp add: parse_defs)

lemma dec_less_not_NaN: "dec_less a b \<Longrightarrow> a \<noteq> NaN \<and> b \<noteq> NaN"
  by (cases a; cases b) simp_all


section \<open>The search view\<close>


lemma price_try_negative:
  "Decimal s = Inr p \<Longrightarrow> dec_less p (Finite False 0 0) \<Longrightarrow>
   price_try s = Inl (ValueError ''Price cannot be negative'')"
  by (auto simp: price_try_def dec_lt_def dest: dec_less_not_NaN)



lemma get_price_negative:
  assumes "GET req key = Some s" and "Decimal s = Inr p" and "dec_less p (Finite False 0 0)"
  shows "get_price req key msg = Inl (ValueError msg)"
proof -
  from assms(2) have "s \<noteq> []" by (auto simp: Decimal_empty)
  with assms show ?thesis by (simp add: get_price_def price_try_negative)
qed



lemma get_category_cached:
  "category_cache obj = Some c \<Longrightarrow> get_category obj d = (Inr c, d)"
  by (simp add: get_category_def)

lemma products_data_cached:
  "list_all (\<lambda>obj. category_cache obj \<noteq> None) objs \<Longrightarrow>
   products_data objs d =
     (Inr (map (\<lambda>obj. product_data (row obj) (the (category_cache obj))) objs), d)"
  by (induction objs) (auto simp: get_category_cached)

lemma search_results_cached:
  "search_products cid mn mx = Inr q \<Longrightarrow>
   list_all (\<lambda>obj. category_cache obj \<noteq> None) (run_query d q)"
  unfolding list_all_iff using run_query_related_cached search_products_Inr(1) by blast

lemma search_get_category_error:
  "get_category_id req = Inl e \<Longrightarrow> search_get req d = (search_except e, d)"
  by (simp add: search_get_def search_try_def)

lemma search_get_price_error:
  "get_category_id req = Inr cid \<Longrightarrow> get_price_range req = Inl e \<Longrightarrow>
   search_get req d = (search_except e, d)"
  by (simp add: search_get_def search_try_def)

lemma search_get_min_above_max:
  "get_category_id req = Inr cid \<Longrightarrow> get_price_range req = Inr (mn, mx) \<Longrightarrow>
   min_above_max mn mx = Inr True \<Longrightarrow>
   search_get req d =
     (JsonResponse (error_data ''Minimum price cannot be greater than maximum price'') 400, d)"
  by (simp add: search_get_def search_try_def)

lemma search_get_compare_error:
  "get_category_id req = Inr cid \<Longrightarrow> get_price_range req = Inr (mn, mx) \<Longrightarrow>
   min_above_max mn mx = Inl e \<Longrightarrow> search_get req d = (search_except e, d)"
  by (simp add: search_get_def search_try_def)

lemma search_get_build_error:
  "get_category_id req = Inr cid \<Longrightarrow> get_price_range req = Inr (mn, mx) \<Longrightarrow>
   min_above_max mn mx = Inr False \<Longrightarrow> search_products cid mn mx = Inl e \<Longrightarrow>
   search_get req d = (search_except e, d)"
  by (simp add: search_get_def search_try_def service_search_products_def)

lemma search_get_ok:
  assumes "get_category_id req = Inr cid" and "get_price_range req = Inr (mn, mx)"
    and "min_above_max mn mx = Inr False" and q: "search_products cid mn mx = Inr q"
  shows "search_get req d =
     (JsonResponse
        (JObj [(''success'', JBool True),
               (''products'', JList (map (\<lambda>obj. product_data (row obj) (the (category_cache obj)))
                                      (run_query d q))),
               (''count'', JInt (int (length (run_query d q)))),
               (''filters_applied'',
                  filters_data \<lparr>filter_category_id = cid, filter_min_price = mn,
                                filter_max_price = mx\<rparr>)])
        200,
      d\<lparr>queries := Suc (queries d)\<rparr>)"
  using assms
  by (simp add: search_get_def search_try_def service_search_products_def fetch_all_def
      search_products_no_key products_data_cached [OF search_results_cached [OF q]])

lemma search_except_status: "status (search_except e) \<noteq> 200"
  by (cases e) (simp_all add: JsonResponse_def)


text \<open>The six ways through \<open>ProductSearchView.get\<close>.\<close>

lemma search_get_cases:
  obtains (category_error) e where "get_category_id req = Inl e"
  | (price_error) cid e where "get_category_id req = Inr cid" "get_price_range req = Inl e"
  | (compare_error) cid mn mx e where "get_category_id req = Inr cid"
      "get_price_range req = Inr (mn, mx)" "min_above_max mn mx = Inl e"
  | (min_above_max) cid mn mx where "get_category_id req = Inr cid"
      "get_price_range req = Inr (mn, mx)" "min_above_max mn mx = Inr True"
  | (build_error) cid mn mx e where "get_category_id req = Inr cid"
      "get_price_range req = Inr (mn, mx)" "min_above_max mn mx = Inr False"
      "search_products cid mn mx = Inl e"
  | (ok) cid mn mx q where "get_category_id req = Inr cid"
      "get_price_range req = Inr (mn, mx)" "min_above_max mn mx = Inr False"
      "search_products cid mn mx = Inr q"
proof (cases "get_category_id req")
  case (Inl e)
  then show ?thesis by (rule category_error)
next
  case cat: (Inr cid)
  show ?thesis
  proof (cases "get_price_range req")
    case (Inl e)
    with cat show ?thesis by (rule price_error)
  next
    case (Inr pr)
    obtain mn mx where pr: "pr = (mn, mx)" by (cases pr)
    show ?thesis
    proof (cases "min_above_max mn mx")
      case (Inl e)
      with cat Inr pr show ?thesis by (auto intro: compare_error)
    next
      case i: (Inr b)
      show ?thesis
      proof (cases b)
        case True
        with cat Inr pr i show ?thesis by (auto intro: min_above_max)
      next
        case False
        with cat Inr pr i show ?thesis
          by (cases "search_products cid mn mx") (auto intro: build_error ok)
      qed
    qed
  qed
qed

text \<open>
  Claim C3 does not hold of the code. The string \<open>-5\<close> parses as a decimal and is
  negative, and the body of the \<open>try\<close> raises \<open>Price cannot be negative\<close>; the
  \<open>except\<close> clause of that same \<open>try\<close> catches it and raises the message of
  a parse failure, to which \<open>get\<close> adds its prefix. So the answer to
  \<open>min_price=-5\<close> (and to \<open>max_price=-5\<close>) is HTTP 400 with the parse-failure
  message, not with \<open>Price cannot be negative\<close>.
\<close>

theorem negative_price_reported_as_invalid:
  "fst (search_get \<lparr>GET = [''min_price'' \<mapsto> ''-5'']\<rparr> shop) =
     JsonResponse (error_data ''Invalid parameter: min_price must be a valid dollar amount'') 400 \<and>
   fst (search_get \<lparr>GET = [''max_price'' \<mapsto> ''-5'']\<rparr> shop) =
     JsonResponse (error_data ''Invalid parameter: max_price must be a valid dollar amount'') 400 \<and>
   Decimal ''-5'' = Inr (Finite True 5 0) \<and>
   price_try ''-5'' = Inl (ValueError ''Price cannot be negative'')"
  by (simp add: search_get_def search_try_def get_category_id_def get_price_range_def
      get_price_def price_try_def dec_lt_def parse_defs JsonResponse_def error_data_def)



section \<open>The detail view\<close>

lemma get_product_detail_cases:
  "(fst (get_product_detail pid d) = Inl DoesNotExist \<and>
      (\<not> key_in_range d pid \<or>
       run_query d (filter_qs (Id pid) (select_related get_queryset)) = [])) \<or>
   (\<exists>obj. fst (get_product_detail pid d) = Inr obj \<and>
      run_query d (filter_qs (Id pid) (select_related get_queryset)) = [obj]) \<or>
   (\<exists>n. fst (get_product_detail pid d) = Inl (MultipleObjectsReturned n))"
  by (auto simp: get_product_detail_def get_where_def fetch_by_id split: list.splits)

lemma get_product_detail_queries:
  "snd (get_product_detail pid d) =
     (if key_in_range d pid then d\<lparr>queries := Suc (queries d)\<rparr> else d)"
  by (simp add: get_product_detail_def get_where_def fetch_by_id)

lemma get_product_detail_cached:
  assumes "fst (get_product_detail pid d) = Inr obj"
  shows "category_cache obj \<noteq> None"
proof -
  from assms get_product_detail_cases [of pid d]
  have "obj \<in> set (run_query d (filter_qs (Id pid) (select_related get_queryset)))" by auto
  with related_by_id show ?thesis by (rule run_query_related_cached)
qed

lemma detail_get_error:
  "fst (get_product_detail pid d) = Inl e \<Longrightarrow> fst (detail_get pid d) = detail_except e"
  by (cases "get_product_detail pid d") (simp add: detail_get_def detail_try_def)

lemma detail_get_not_found:
  "fst (get_product_detail pid d) = Inl DoesNotExist \<Longrightarrow>
   fst (detail_get pid d) = JsonResponse (error_data ''Product not found'') 404"
  by (simp add: detail_get_error)

lemma detail_get_found:
  assumes "fst (get_product_detail pid d) = Inr obj"
  shows "fst (detail_get pid d) =
     JsonResponse
        (JObj [(''success'', JBool True),
               (''product'', product_data_detail (row obj) (the (category_cache obj)))])
        200"
proof -
  from get_product_detail_cached [OF assms] obtain c where "category_cache obj = Some c" by blast
  with assms show ?thesis
    by (cases "get_product_detail pid d")
      (simp add: detail_get_def detail_try_def get_category_cached)
qed

lemma detail_get_queries:
  "snd (detail_get pid d) =
     (if key_in_range d pid then d\<lparr>queries := Suc (queries d)\<rparr> else d)"
proof (cases "fst (get_product_detail pid d)")
  case (Inl e)
  with get_product_detail_queries [of pid d] show ?thesis
    by (cases "get_product_detail pid d") (simp add: detail_get_def detail_try_def)
next
  case (Inr obj)
  from get_product_detail_cached [OF Inr] obtain c where "category_cache obj = Some c" by blast
  with Inr get_product_detail_queries [of pid d] show ?thesis
    by (cases "get_product_detail pid d")
      (simp add: detail_get_def detail_try_def get_category_cached)
qed

lemma detail_404_iff:
  "status (fst (detail_get pid d)) = 404 \<longleftrightarrow> fst (get_product_detail pid d) = Inl DoesNotExist"
  using get_product_detail_cases [of pid d]
  by (auto simp: detail_get_not_found detail_get_found detail_get_error JsonResponse_def)

lemma no_rows_iff:
  assumes "store_ok d"
  shows "run_query d (filter_qs (Id pid) (select_related get_queryset)) = [] \<longleftrightarrow>
         (\<forall>p\<in>set (products d). prod_id p \<noteq> pid)"
proof -
  have "run_query d (filter_qs (Id pid) (select_related get_queryset)) = [] \<longleftrightarrow>
        map row (run_query d (filter_qs (Id pid) (select_related get_queryset))) = []"
    by simp
  also have "\<dots> \<longleftrightarrow> select_rows d (filter_qs (Id pid) (select_related get_queryset)) = []"
    by (simp only: rows_run_query [OF assms])
  also have "\<dots> \<longleftrightarrow> (\<forall>p\<in>set (products d). prod_id p \<noteq> pid)"
    using select_rows_by_id [of d pid] by (auto simp flip: set_empty)
  finally show ?thesis .
qed

lemma absent_id_not_found:
  assumes "\<forall>p\<in>set (products d). prod_id p \<noteq> pid"
  shows "fst (get_product_detail pid d) = Inl DoesNotExist"
proof -
  from assms have "set (select_rows d (filter_qs (Id pid) (select_related get_queryset))) = {}"
    by (auto simp: select_rows_by_id)
  then have "run_query d (filter_qs (Id pid) (select_related get_queryset)) = []"
    by (simp add: run_query_def List.map_filter_simps)
  then show ?thesis
    by (simp add: get_product_detail_def get_where_def fetch_by_id)
qed

text \<open>
  Claim C7. When no product of the store has the id asked for, the detail view answers
  HTTP 404 with \<open>{success: false, error: 'Product not found'}\<close>. It answers 404
  exactly when the lookup \<open>get_product_detail\<close> raises \<open>DoesNotExist\<close>, which on a
  store that keeps its keys is exactly when no product has that id.
\<close>

theorem detail_not_found:
  "((\<forall>p\<in>set (products d). prod_id p \<noteq> pid) \<longrightarrow>
      fst (detail_get pid d) = JsonResponse (error_data ''Product not found'') 404) \<and>
   (status (fst (detail_get pid d)) = 404 \<longleftrightarrow> fst (get_product_detail pid d) = Inl DoesNotExist) \<and>
   (store_ok d \<longrightarrow>
      (status (fst (detail_get pid d)) = 404 \<longleftrightarrow> (\<forall>p\<in>set (products d). prod_id p \<noteq> pid)))"
proof -
  have "fst (detail_get pid d) = JsonResponse (error_data ''Product not found'') 404"
    if "\<forall>p\<in>set (products d). prod_id p \<noteq> pid"
    using absent_id_not_found [OF that] by (simp add: detail_get_not_found)
  moreover
  have "status (fst (detail_get pid d)) = 404 \<longleftrightarrow> (\<forall>p\<in>set (products d). prod_id p \<noteq> pid)"
    if ok: "store_ok d"
  proof
    assume "status (fst (detail_get pid d)) = 404"
    then have "fst (get_product_detail pid d) = Inl DoesNotExist" by (simp add: detail_404_iff)
    with get_product_detail_cases [of pid d]
    have "\<not> key_in_range d pid \<or>
        run_query d (filter_qs (Id pid) (select_related get_queryset)) = []" by auto
    moreover have "\<forall>p\<in>set (products d). prod_id p \<noteq> pid" if "\<not> key_in_range d pid"
      using ok that by (auto simp: store_ok_def list_all_iff)
    ultimately show "\<forall>p\<in>set (products d). prod_id p \<noteq> pid"
      using no_rows_iff [OF ok, of pid] by blast
  next
    assume "\<forall>p\<in>set (products d). prod_id p \<noteq> pid"
    then show "status (fst (detail_get pid d)) = 404"
      by (simp add: detail_404_iff absent_id_not_found)
  qed
  ultimately show ?thesis using detail_404_iff [of pid d] by blast
qed

text \<open>
  In the catalogue of the tests the id 9999 is answered with 404 and that body; the id 4
  is not answered with 404.
\<close>

theorem detail_not_found_witness:
  "fst (detail_get 9999 shop) = JsonResponse (error_data ''Product not found'') 404 \<and>
   status (fst (detail_get 4 shop)) \<noteq> 404"
proof -
  have absent: "\<forall>p\<in>set (products shop). prod_id p \<noteq> 9999"
    and present: "\<not> (\<forall>p\<in>set (products shop). prod_id p \<noteq> 4)"
    by (simp_all add: shop_defs)
  from absent detail_not_found [of shop 9999]
  have "fst (detail_get 9999 shop) = JsonResponse (error_data ''Product not found'') 404"
    by blast
  moreover from present store_ok_shop detail_not_found [of shop 4]
  have "status (fst (detail_get 4 shop)) \<noteq> 404" by blast
  ultimately show ?thesis by blast
qed

section \<open>Queries sent to the store\<close>

text \<open>
  Claim C10. A search that returns its results has sent exactly one query, whatever the
  filters, the store and the number of results are. Every instance it returns carries
  its category, so reading \<open>product.category\<close> of any of them, and the whole loop of
  the view over them, sends no query. A search that raises while its queryset is built
  has sent none. Hence a search request that the view answers with results (200) has
  sent exactly one query, and one that it rejects (400) has sent none.
\<close>

theorem search_costs_one_query:
  "(\<forall>objs. fst (search_list cid mn mx d) = Inr objs \<longrightarrow>
      snd (search_list cid mn mx d) = d\<lparr>queries := Suc (queries d)\<rparr> \<and>
      list_all (\<lambda>obj. \<exists>c. get_category obj d1 = (Inr c, d1)) objs \<and>
      snd (products_data objs d1) = d1) \<and>
   (\<forall>e. search_products cid mn mx = Inl e \<longrightarrow> search_list cid mn mx d = (Inl e, d)) \<and>
   (status (fst (search_get req d)) = 200 \<longrightarrow>
      snd (search_get req d) = d\<lparr>queries := Suc (queries d)\<rparr>) \<and>
   (status (fst (search_get req d)) = 400 \<longrightarrow> snd (search_get req d) = d)"
proof -
  have returned: "snd (search_list cid mn mx d) = d\<lparr>queries := Suc (queries d)\<rparr> \<and>
      list_all (\<lambda>obj. \<exists>c. get_category obj d1 = (Inr c, d1)) objs \<and>
      snd (products_data objs d1) = d1"
    if "fst (search_list cid mn mx d) = Inr objs" for objs
  proof -
    from that obtain q where q: "search_products cid mn mx = Inr q" and objs: "objs = run_query d q"
      by (rule search_list_result)
    note cached = search_results_cached [OF q, of d]
    have "list_all (\<lambda>obj. \<exists>c. get_category obj d1 = (Inr c, d1)) objs"
      using cached by (auto simp: objs list_all_iff get_category_cached)
    moreover have "snd (products_data objs d1) = d1"
      by (simp add: objs products_data_cached [OF cached])
    ultimately show ?thesis by (simp add: search_list_Inr [OF q])
  qed
  have raised: "search_list cid mn mx d = (Inl e, d)" if "search_products cid mn mx = Inl e" for e
    using that by (rule search_list_Inl)
  have answered: "(status (fst (search_get req d)) = 200 \<longrightarrow>
      snd (search_get req d) = d\<lparr>queries := Suc (queries d)\<rparr>) \<and>
      (status (fst (search_get req d)) = 400 \<longrightarrow> snd (search_get req d) = d)"
  proof (cases req rule: search_get_cases)
    case (category_error e)
    then show ?thesis by (simp add: search_get_category_error search_except_status)
  next
    case (price_error cid e)
    then show ?thesis by (simp add: search_get_price_error search_except_status)
  next
    case (compare_error cid mn mx e)
    then show ?thesis by (simp add: search_get_compare_error search_except_status)
  next
    case (min_above_max cid mn mx)
    then show ?thesis by (simp add: search_get_min_above_max JsonResponse_def)
  next
    case (build_error cid mn mx e)
    then show ?thesis by (simp add: search_get_build_error search_except_status)
  next
    case (ok cid mn mx q)
    then show ?thesis by (simp add: search_get_ok JsonResponse_def)
  qed
  from returned raised answered show ?thesis by blast
qed

text \<open>
  The search for category 1 in the catalogue of the tests is answered with 200 after one
  query.
\<close>

theorem search_costs_one_query_witness:
  "status (fst (search_get \<lparr>GET = [''category_id'' \<mapsto> ''1'']\<rparr> shop)) = 200 \<and>
   queries (snd (search_get \<lparr>GET = [''category_id'' \<mapsto> ''1'']\<rparr> shop)) = 1"
proof -
  let ?r = "\<lparr>GET = [''category_id'' \<mapsto> ''1'']\<rparr>"
  obtain q where "search_products (Some 1) None None = Inr q"
    using search_products_one_bound [of None None "Some 1"] by blast
  moreover have "get_category_id ?r = Inr (Some 1)" "get_price_range ?r = Inr (None, None)"
    "min_above_max None None = Inr False"
    by (simp_all add: get_category_id_def get_price_range_def get_price_def min_above_max_def
        parse_defs)
  ultimately have "status (fst (search_get ?r shop)) = 200"
    by (simp add: search_get_ok JsonResponse_def)
  moreover have "queries shop = 0" by (simp add: shop_def)
  ultimately show ?thesis
    using search_costs_one_query [of "Some 1" None None shop shop ?r] by simp
qed

section \<open>Category id 0\<close>













section \<open>Decimal strings\<close>

lemma digit_cases: "n < 10 \<Longrightarrow> n \<in> {0, 1, 2, 3, 4, 5, 6, 7, 8, 9::nat}"
  by auto

lemma digit_char_digit: "n < 10 \<Longrightarrow> is_digit (digit_char n) \<and> digit_val (digit_char n) = n"
  by (drule digit_cases) (auto simp: digit_char_def is_digit_def digit_val_def)

lemma is_digit_not_special:
  "is_digit c \<Longrightarrow> \<not> is_space c \<and> c \<noteq> CHR ''_'' \<and> c \<noteq> CHR ''-'' \<and> c \<noteq> CHR ''+'' \<and>
     c \<noteq> CHR ''.'' \<and> c \<noteq> CHR ''n'' \<and> c \<noteq> CHR ''N'' \<and> c \<noteq> CHR ''s'' \<and> c \<noteq> CHR ''S'' \<and>
     c \<noteq> CHR ''i'' \<and> c \<noteq> CHR ''I''"
  by (auto simp: is_digit_def is_space_def Let_def)

lemma digits_val_snoc: "digits_val (ds @ [c]) = 10 * digits_val ds + digit_val c"
  by (simp add: digits_val_def)

lemma digits_val_zero: "digits_val (CHR ''0'' # ds) = digits_val ds"
  by (simp add: digits_val_def digit_val_def)

lemma digits_val_zeros: "digits_val (replicate k CHR ''0'' @ ds) = digits_val ds"
  by (induction k) (simp_all add: digits_val_zero)

lemma str_nat_digits:
  "list_all is_digit (str_nat n) \<and> str_nat n \<noteq> [] \<and> digits_val (str_nat n) = n"
proof (induction n rule: str_nat.induct)
  case (1 n)
  show ?case
  proof (cases "n < 10")
    case True
    then show ?thesis
      by (simp add: digit_char_digit digits_val_def)
  next
    case False
    then have "n mod 10 < 10" by simp
    with False 1 show ?thesis
      by (simp add: digit_char_digit digits_val_snoc)
  qed
qed

text \<open>A number with two decimal places is written with a point and two digits after it.\<close>

lemma str_decimal_two_places:
  "\<exists>ip fp. str_decimal (Finite s c (- 2)) = str_sign s @ ip @ CHR ''.'' # fp \<and>
     ip \<noteq> [] \<and> list_all is_digit ip \<and> list_all is_digit fp \<and> length fp = 2 \<and>
     digits_val (ip @ fp) = c"
proof -
  let ?ds = "str_nat c"
  note ds = str_nat_digits [of c]
  show ?thesis
  proof (cases "length ?ds \<le> 2")
    case True
    let ?fp = "replicate (2 - length ?ds) CHR ''0'' @ ?ds"
    from True ds have "str_decimal (Finite s c (- 2)) = str_sign s @ ''0'' @ CHR ''.'' # ?fp"
      by (simp add: str_decimal_def Let_def nat_diff_distrib')
    moreover have "list_all is_digit ''0''" by (simp add: is_digit_def)
    moreover have "is_digit CHR ''0''" by (simp add: is_digit_def)
    with ds have "list_all is_digit ?fp" by (auto simp: list_all_iff)
    moreover from True have "length ?fp = 2" by simp
    moreover from ds have "digits_val (''0'' @ ?fp) = c"
      by (simp add: digits_val_zero digits_val_zeros)
    ultimately show ?thesis by blast
  next
    case False
    let ?k = "length ?ds - 2"
    from False have "str_decimal (Finite s c (- 2)) =
        str_sign s @ take ?k ?ds @ CHR ''.'' # drop ?k ?ds"
      by (simp add: str_decimal_def Let_def nat_diff_distrib')
    moreover from False have "take ?k ?ds \<noteq> []" by auto
    moreover from ds have "list_all is_digit (take ?k ?ds)" "list_all is_digit (drop ?k ?ds)"
      by (auto simp: list_all_iff dest: in_set_takeD in_set_dropD)
    moreover from False have "length (drop ?k ?ds) = 2" by simp
    moreover from ds have "digits_val (take ?k ?ds @ drop ?k ?ds) = c" by simp
    ultimately show ?thesis by blast
  qed
qed

lemma strip_id:
  assumes "t \<noteq> []" and "\<not> is_space (hd t)" and "\<not> is_space (last t)"
  shows "strip t = t"
proof -
  from assms(1,2) have "dropWhile is_space t = t" by (cases t) simp_all
  moreover from assms(1,3) have "dropWhile is_space (rev t) = rev t"
    by (cases "rev t") (simp_all add: hd_rev)
  ultimately show ?thesis by (simp add: strip_def)
qed

lemma takeWhile_digits:
  "list_all is_digit ip \<Longrightarrow> \<not> is_digit c \<Longrightarrow>
   takeWhile is_digit (ip @ c # r) = ip \<and> dropWhile is_digit (ip @ c # r) = c # r"
  by (induction ip) simp_all

lemma takeWhile_all_digits:
  "list_all is_digit fp \<Longrightarrow> takeWhile is_digit fp = fp \<and> dropWhile is_digit fp = []"
  by (induction fp) simp_all

lemma parse_number_plain:
  assumes "ip \<noteq> []" and "list_all is_digit ip" and "list_all is_digit fp"
  shows "parse_number s (ip @ CHR ''.'' # fp) =
           Some (Finite s (digits_val (ip @ fp)) (- int (length fp)))"
proof -
  have "\<not> is_digit CHR ''.''" by (simp add: is_digit_def)
  with assms show ?thesis
    by (simp add: parse_number_def Let_def takeWhile_digits takeWhile_all_digits
        parse_exponent_def)
qed

lemma Decimal_plain:
  assumes "ip \<noteq> []" and "list_all is_digit ip" and "list_all is_digit fp" and "fp \<noteq> []"
  shows "Decimal (str_sign s @ ip @ CHR ''.'' # fp) =
           Inr (Finite s (digits_val (ip @ fp)) (- int (length fp)))"
proof -
  let ?u = "ip @ CHR ''.'' # fp"
  let ?t = "str_sign s @ ?u"
  from assms obtain a ip' where ip: "ip = a # ip'" and a: "is_digit a"
    by (cases ip) auto
  from assms have last: "is_digit (last ?t)" by (simp add: list_all_iff)
  have "\<not> is_space (hd ?t)"
    using a is_digit_not_special [of a] by (simp add: str_sign_def ip is_space_def)
  moreover have "\<not> is_space (last ?t)" using last is_digit_not_special by blast
  ultimately have strip: "strip ?t = ?t" by (simp add: strip_id)
  have "\<forall>c\<in>set ?t. c \<noteq> CHR ''_''"
    using assms is_digit_not_special by (auto simp: str_sign_def list_all_iff)
  then have under: "filter (\<lambda>c. c \<noteq> CHR ''_'') ?t = ?t" by (simp add: filter_id_conv)
  have sign: "split_sign ?t = (s, ?u)"
    using a is_digit_not_special [of a] by (simp add: split_sign_def str_sign_def ip)
  have words: "\<not> strneq ?u ''nan'' ''NAN''" "\<not> strneq ?u ''snan'' ''SNAN''"
    "\<not> strneq ?u ''inf'' ''INF''"
    using a is_digit_not_special [of a] by (simp_all add: ip)
  show ?thesis
    unfolding Decimal_def strip under sign
    using words parse_number_plain [OF assms(1-3)] by simp
qed

lemma Decimal_str_decimal:
  assumes "price_field p"
  shows "Decimal (str_decimal p) = Inr p"
proof -
  from assms obtain s c where p: "p = Finite s c (- 2)"
    by (cases p) (auto simp: price_field_def)
  from str_decimal_two_places [of s c] obtain ip fp where
    str: "str_decimal (Finite s c (- 2)) = str_sign s @ ip @ CHR ''.'' # fp"
    and parts: "ip \<noteq> []" "list_all is_digit ip" "list_all is_digit fp" "length fp = 2"
      "digits_val (ip @ fp) = c"
    by blast
  from parts have "fp \<noteq> []" by auto
  with parts Decimal_plain [of ip fp s] show ?thesis by (simp add: p str)
qed

section \<open>The price in the answers\<close>

lemma field_price_product_data:
  "field ''price'' (product_data p c) = Some (JStr (str_decimal (price p))) \<and>
   field ''id'' (product_data p c) = Some (JInt (prod_id p))"
  by (simp add: product_data_def)

lemma field_price_product_data_detail:
  "field ''price'' (product_data_detail p c) = Some (JStr (str_decimal (price p)))"
  by (simp add: product_data_detail_def)

lemma no_products_in_error:
  "field ''products'' (body (search_except e)) = None \<and>
   field ''products'' (body (JsonResponse (error_data msg) st)) = None"
  by (cases e) (simp_all add: JsonResponse_def error_data_def exn_data_def)

lemma no_product_in_error: "field ''product'' (body (detail_except e)) = None"
  by (cases e) (simp_all add: JsonResponse_def error_data_def exn_data_def)

lemma run_query_by_id_row:
  assumes "obj \<in> set (run_query d (filter_qs (Id pid) (select_related get_queryset)))"
  shows "row obj \<in> set (products d) \<and> prod_id (row obj) = pid"
proof -
  from assms related_by_id [of pid]
  have "row obj \<in> set (select_rows d (filter_qs (Id pid) (select_related get_queryset)))"
    by (auto simp: run_query_def dest: set_map_filter_join)
  then show ?thesis by (simp add: select_rows_by_id)
qed

text \<open>
  Claim C8. When every stored price is a value of the price column (two decimal places,
  at most ten digits), each product in the answer of the search view and the product in
  the answer of the detail view is a product of the store whose \<open>price\<close> field is a
  JSON string, the \<open>str\<close> of the stored \<open>Decimal\<close>; and that string is exact:
  read back as a \<open>Decimal\<close> it is the stored value, digit for digit.
\<close>

theorem price_is_exact_decimal_string:
  assumes "list_all (\<lambda>p. price_field (price p)) (products d)"
  shows "(\<forall>js. field ''products'' (body (fst (search_get req d))) = Some (JList js) \<longrightarrow>
            list_all (\<lambda>j. \<exists>p\<in>set (products d).
                        field ''id'' j = Some (JInt (prod_id p)) \<and>
                        field ''price'' j = Some (JStr (str_decimal (price p))) \<and>
                        Decimal (str_decimal (price p)) = Inr (price p)) js) \<and>
         (\<forall>j. field ''product'' (body (fst (detail_get pid d))) = Some j \<longrightarrow>
            (\<exists>p\<in>set (products d).
               prod_id p = pid \<and>
               field ''price'' j = Some (JStr (str_decimal (price p))) \<and>
               Decimal (str_decimal (price p)) = Inr (price p)))"
proof -
  have exact: "Decimal (str_decimal (price p)) = Inr (price p)" if "p \<in> set (products d)" for p
    using assms that by (auto simp: list_all_iff intro: Decimal_str_decimal)
  have search: "list_all (\<lambda>j. \<exists>p\<in>set (products d).
                        field ''id'' j = Some (JInt (prod_id p)) \<and>
                        field ''price'' j = Some (JStr (str_decimal (price p))) \<and>
                        Decimal (str_decimal (price p)) = Inr (price p)) js"
    if js: "field ''products'' (body (fst (search_get req d))) = Some (JList js)" for js
  proof (cases req rule: search_get_cases)
    case (category_error e)
    with js show ?thesis by (simp add: search_get_category_error no_products_in_error)
  next
    case (price_error cid e)
    with js show ?thesis by (simp add: search_get_price_error no_products_in_error)
  next
    case (compare_error cid mn mx e)
    with js show ?thesis by (simp add: search_get_compare_error no_products_in_error)
  next
    case (min_above_max cid mn mx)
    with js show ?thesis by (simp add: search_get_min_above_max no_products_in_error)
  next
    case (build_error cid mn mx e)
    with js show ?thesis by (simp add: search_get_build_error no_products_in_error)
  next
    case (ok cid mn mx q)
    with js have "js = map (\<lambda>obj. product_data (row obj) (the (category_cache obj)))
        (run_query d q)"
      by (simp add: search_get_ok JsonResponse_def)
    then show ?thesis
      unfolding list_all_iff
      using run_query_row_in_store [of _ d q]
      by (auto simp: field_price_product_data exact)
  qed
  have detail: "\<exists>p\<in>set (products d).
               prod_id p = pid \<and>
               field ''price'' j = Some (JStr (str_decimal (price p))) \<and>
               Decimal (str_decimal (price p)) = Inr (price p)"
    if j: "field ''product'' (body (fst (detail_get pid d))) = Some j" for j
  proof (cases "fst (get_product_detail pid d)")
    case (Inl e)
    with j show ?thesis by (simp add: detail_get_error no_product_in_error)
  next
    case (Inr obj)
    with get_product_detail_cases [of pid d]
    have "obj \<in> set (run_query d (filter_qs (Id pid) (select_related get_queryset)))" by auto
    then have "row obj \<in> set (products d) \<and> prod_id (row obj) = pid"
      by (rule run_query_by_id_row)
    moreover from j Inr have "j = product_data_detail (row obj) (the (category_cache obj))"
      by (simp add: detail_get_found JsonResponse_def)
    ultimately show ?thesis
      by (auto simp: field_price_product_data_detail exact)
  qed
  from search detail show ?thesis by blast
qed

text \<open>
  The phone of the catalogue of the tests, stored at 599.99, is answered with the string
  \<open>599.99\<close>, which reads back as 59999 hundredths.
\<close>

theorem price_is_exact_decimal_string_witness:
  "list_all (\<lambda>p. price_field (price p)) (products shop) \<and>
   (\<exists>j. field ''product'' (body (fst (detail_get 1 shop))) = Some j \<and>
        field ''price'' j = Some (JStr ''599.99'')) \<and>
   Decimal ''599.99'' = Inr (Finite False 59999 (- 2))"
proof -
  have fields: "list_all (\<lambda>p. price_field (price p)) (products shop)"
    by (simp add: shop_defs price_field_def)
  have phone: "phone \<in> set (products shop)" "prod_id phone = 1"
    by (simp_all add: shop_defs)
  from get_product_detail_found [OF store_ok_shop phone(1)] phone(2)
  obtain c where "fst (get_product_detail 1 shop) = Inr \<lparr>row = phone, category_cache = Some c\<rparr>"
    by auto
  then have j: "field ''product'' (body (fst (detail_get 1 shop))) =
      Some (product_data_detail phone c)"
    by (simp add: detail_get_found JsonResponse_def)
  with price_is_exact_decimal_string [OF fields, of "\<lparr>GET = Map.empty\<rparr>" 1]
  obtain p where p: "p \<in> set (products shop)" "prod_id p = 1"
    and price: "field ''price'' (product_data_detail phone c) = Some (JStr (str_decimal (price p)))"
    and exact: "Decimal (str_decimal (price p)) = Inr (price p)"
    by blast
  from p have "p = phone" by (auto simp: shop_defs)
  moreover have "str_decimal (price phone) = ''599.99''"
    by (simp add: phone_def str_decimal_def str_sign_def digit_char_def)
  moreover have "price phone = Finite False 59999 (- 2)" by (simp add: phone_def)
  ultimately show ?thesis using fields j price exact by auto
qed

section \<open>Requests that send no query\<close>

text \<open>
  A price bound that is not finite passes the checks of the view (\<open>inf\<close> parses and is
  not negative) and is refused when the condition is built: the answer is 500 and no
  query was sent.
\<close>

lemma infinite_bound_refused:
  "status (fst (search_get \<lparr>GET = [''min_price'' \<mapsto> ''1'', ''max_price'' \<mapsto> ''inf'']\<rparr> shop)) = 500 \<and>
   snd (search_get \<lparr>GET = [''min_price'' \<mapsto> ''1'', ''max_price'' \<mapsto> ''inf'']\<rparr> shop) = shop"
proof -
  let ?r = "\<lparr>GET = [''min_price'' \<mapsto> ''1'', ''max_price'' \<mapsto> ''inf'']\<rparr>"
  have "get_category_id ?r = Inr None"
    "get_price_range ?r = Inr (Some (Finite False 1 0), Some (Infinity False))"
    "min_above_max (Some (Finite False 1 0)) (Some (Infinity False)) = Inr False"
    "search_products None (Some (Finite False 1 0)) (Some (Infinity False)) =
       Inl (ValidationError (Infinity False))"
    by (simp_all add: get_category_id_def get_price_range_def get_price_def price_try_def
        dec_lt_def dec_gt_def min_above_max_def search_products_eq parse_defs)
  then have "search_get ?r shop = (search_except (ValidationError (Infinity False)), shop)"
    by (rule search_get_build_error)
  then show ?thesis by (simp add: JsonResponse_def)
qed

text \<open>
  The detail view sends one query for an id in the range of the key column, and none for
  an id outside it, which it answers with 404.
\<close>

lemma detail_out_of_range:
  "\<not> key_in_range d pid \<Longrightarrow>
   detail_get pid d = (JsonResponse (error_data ''Product not found'') 404, d)"
proof -
  assume out: "\<not> key_in_range d pid"
  then have "fst (get_product_detail pid d) = Inl DoesNotExist"
    by (simp add: get_product_detail_def get_where_def fetch_by_id)
  then have "fst (detail_get pid d) = JsonResponse (error_data ''Product not found'') 404"
    by (rule detail_get_not_found)
  moreover from out have "snd (detail_get pid d) = d" by (simp add: detail_get_queries)
  ultimately show ?thesis by (simp add: prod_eq_iff)
qed

end
